theory Spec2Isabelle
  imports Main "HOL-Library.Sublist"
begin

section \<open>Python strings\<close>

text \<open>
  A Python \<open>str\<close> is a sequence of Unicode code points, and \<open>len\<close> counts code points.
  A code point is modelled as a natural number and a string as a list of them.
  \<open>ascii\<close> embeds an ASCII literal of the source.
\<close>

type_synonym str = "nat list"

definition ascii :: "string \<Rightarrow> str" where
  "ascii s = map of_char s"

text \<open>
  \<open>s.replace(old, new)\<close> for a non-empty \<open>old\<close>: scan from the left, replace the leftmost
  occurrence, continue after it (occurrences do not overlap).
\<close>

function replace_scan :: "'a list \<Rightarrow> 'a list \<Rightarrow> 'a list \<Rightarrow> 'a list" where
  "replace_scan old new [] = []"
| "replace_scan old new (x # xs) =
     (if old \<noteq> [] \<and> prefix old (x # xs)
      then new @ replace_scan old new (drop (length old) (x # xs))
      else x # replace_scan old new xs)"
  by pat_completeness auto
termination
  by (relation "measure (\<lambda>(old, new, s). length s)") auto

text \<open>
  \<open>s.replace(old, new)\<close>. With an empty \<open>old\<close> Python inserts \<open>new\<close> before every
  character and at the end: \<open>"ab".replace("", "-") == "-a-b-"\<close>.
\<close>

definition str_replace :: "'a list \<Rightarrow> 'a list \<Rightarrow> 'a list \<Rightarrow> 'a list" where
  "str_replace s old new =
     (if old = [] then new @ concat (map (\<lambda>c. c # new) s) else replace_scan old new s)"

text \<open>\<open>sep.join(xs)\<close>\<close>

fun str_join :: "'a list \<Rightarrow> 'a list list \<Rightarrow> 'a list" where
  "str_join sep [] = []"
| "str_join sep [x] = x"
| "str_join sep (x # y # ys) = x @ sep @ str_join sep (y # ys)"

section \<open>Errors and values\<close>

text \<open>
  The exceptions the modelled code can raise: \<open>KeyError\<close> of a dictionary subscript,
  \<open>AttributeError\<close> of a method call on \<open>None\<close>, \<open>FileNotFoundError\<close> of opening
  an absent file, and \<open>ExternalError\<close> for any \<open>Exception\<close> raised inside a
  collaborator (browser, embedding, search, model).
\<close>

datatype error = KeyError str | AttributeError | FileNotFoundError str | ExternalError

text \<open>The values held by the query state: a string or \<open>None\<close>.\<close>

datatype pyval = PStr str | PNone

text \<open>\<open>d.get(k, default)\<close>\<close>

definition dict_get :: "('k \<rightharpoonup> 'v) \<Rightarrow> 'k \<Rightarrow> 'v \<Rightarrow> 'v" where
  "dict_get d k dflt = (case d k of None \<Rightarrow> dflt | Some v \<Rightarrow> v)"

text \<open>\<open>d[k]\<close>\<close>

definition dict_item :: "(str \<rightharpoonup> 'v) \<Rightarrow> str \<Rightarrow> error + 'v" where
  "dict_item d k = (case d k of None \<Rightarrow> Inl (KeyError k) | Some v \<Rightarrow> Inr v)"

section \<open>Session state\<close>

text \<open>
  \<open>st.session_state\<close> holds four keys; each may be absent (\<open>None\<close>) before \<open>main\<close>
  initialises it. \<open>user_info\<close> is a dictionary from field names to strings, a chat turn
  is the dictionary \<open>{"user": user_input, "ai": result["answer"]}\<close>.
\<close>

record chat_turn =
  user :: str
  ai :: pyval

record session_state =
  onboarding_complete :: "bool option"
  user_info :: "(str \<rightharpoonup> str) option"
  chat_history :: "chat_turn list option"
  form_id :: "int option"

section \<open>PII masking\<close>

definition NAME_TOKEN :: str where "NAME_TOKEN = ascii ''[NAME]''"
definition EMAIL_TOKEN :: str where "EMAIL_TOKEN = ascii ''[EMAIL]''"
definition PHONE_TOKEN :: str where "PHONE_TOKEN = ascii ''[PHONE]''"

text \<open>\<open>mask_pii\<close> (main.py, lines 122-129).\<close>

definition mask_pii :: "session_state \<Rightarrow> str \<Rightarrow> str" where
  "mask_pii ss text =
     (case user_info ss of
        None \<Rightarrow> text
      | Some info \<Rightarrow>
          (let masked = str_replace text (dict_get info (ascii ''name'') []) NAME_TOKEN;
               masked = str_replace masked (dict_get info (ascii ''email'') []) EMAIL_TOKEN;
               masked = str_replace masked (dict_get info (ascii ''phone'') []) PHONE_TOKEN
           in masked))"

text \<open>
  The re-injection of the name at the end of \<open>output_node\<close> (main.py, lines 167-170):
  \<open>answer.replace("[NAME]", st.session_state.user_info["name"])\<close> when \<open>user_info\<close> is in
  the session state.
\<close>

definition unmask_name :: "session_state \<Rightarrow> str \<Rightarrow> error + str" where
  "unmask_name ss answer =
     (case user_info ss of
        None \<Rightarrow> Inr answer
      | Some info \<Rightarrow>
          (case dict_item info (ascii ''name'') of
             Inl e \<Rightarrow> Inl e
           | Inr n \<Rightarrow> Inr (str_replace answer NAME_TOKEN n)))"

text \<open>
  The conditions on a profile field under which the replacements cannot bring the field
  back: it contains neither \<open>[\<close> (code point 91) nor \<open>]\<close> (code point 93).
\<close>

definition bracket_free :: "str \<Rightarrow> bool" where
  "bracket_free s \<longleftrightarrow> 91 \<notin> set s \<and> 93 \<notin> set s"

text \<open>
  The condition under which the re-injection finds a name: there is no \<open>user_info\<close>, or
  \<open>user_info\<close> has the key \<open>name\<close>. \<open>main\<close> runs the pipeline only when onboarding is
  complete (main.py, line 251), and onboarding stores a \<open>user_info\<close> with the keys
  \<open>name\<close>, \<open>email\<close> and \<open>phone\<close> (main.py, lines 217 and 233-234); a logout resets both
  and ends the run (main.py, lines 243-247).
\<close>

definition name_available :: "session_state \<Rightarrow> bool" where
  "name_available ss =
     (case user_info ss of None \<Rightarrow> True | Some info \<Rightarrow> info (ascii ''name'') \<noteq> None)"

text \<open>
  The session state as \<open>main\<close> leaves it when nobody is signed in (main.py, lines 188-195,
  and after a logout, lines 243-246): \<open>user_info\<close> is the empty dictionary.
\<close>

definition logged_out :: session_state where
  "logged_out =
     \<lparr>onboarding_complete = Some False, user_info = Some Map.empty,
      chat_history = Some [], form_id = Some 0\<rparr>"

section \<open>Query pipeline\<close>

text \<open>
  The query state is the dictionary threaded through the three nodes, with the keys
  \<open>question\<close>, \<open>route\<close>, \<open>context\<close> and \<open>answer\<close>.
\<close>

type_synonym state = "str \<rightharpoonup> pyval"

text \<open>The text an f-string puts in place of a value.\<close>

fun format_value :: "pyval \<Rightarrow> str" where
  "format_value (PStr s) = s"
| "format_value PNone = ascii ''None''"

text \<open>The fixed message of the \<open>except\<close> branch (main.py, line 166).\<close>

definition UNAVAILABLE :: str where
  "UNAVAILABLE = [9888, 65039] @ ascii '' AI assistant is temporarily unavailable.''"

text \<open>The three fixed pieces of the prompt template (main.py, lines 142-163).\<close>

definition PROMPT_HEAD :: str where
  "PROMPT_HEAD =
     [10] @ ascii ''            You are an AI Assistantrepresenting Occams Advisory.'' @ [10] @
     ascii ''        Using the following context, provide a clear, structured answer to the user.'' @
     [10] @ ascii ''        When answering, speak in first-person as the company ('' @ [34] @
     ascii ''we'' @ [34] @ ascii '', '' @ [34] @ ascii ''our'' @ [34] @ ascii '').'' @ [10] @
     ascii ''        Be friendly, professional, and concise.'' @ [10] @
     ascii ''        Rules:'' @ [10] @ ascii ''           -If the user greets with (eg. '' @
     [34] @ ascii ''hi'' @ [34] @ ascii '','' @ [34] @ ascii ''hello'' @ [34] @ ascii '','' @
     [34] @ ascii ''hey'' @ [34] @ ascii ''), reply with a warm greeting and suggest '' @
     [10] @ ascii ''            what they can ask about (services, careers, contact info).'' @
     [10] @ ascii ''           -If the user greets + asks a real question (e.g., '' @ [34] @
     ascii ''Hi, I want to know about your company'' @ [34] @ ascii ''), '' @ [10] @
     ascii ''            combine both: start with a greeting and then answer their question.'' @
     [10] @
     ascii ''           -If the user asks something unrelated to the knowledge base, reply: '' @
     [10] @ ascii ''            '' @ [34, 10060] @ ascii '' Sorry, I don'' @ [8217] @
     ascii ''t know the answer based on our data.'' @ [34, 10] @
     ascii ''           - Do NOT say '' @ [34] @ ascii ''based on the provided context'' @
     [34] @ ascii '' or similar phrases.'' @ [10] @
     ascii ''           - Just answer directly like a human from the company would.'' @ [10] @
     ascii ''           - Do not include any generic signatures, disclaimers, or placeholders like [Your Name] '' @
     [10] @ ascii ''             or [Your Position]'' @ [10, 10] @
     ascii ''            Context:'' @ [10] @ ascii ''            ''"

definition PROMPT_MID :: str where
  "PROMPT_MID =
     [10] @ ascii ''            Question:'' @ [10] @ ascii ''            ''"

definition PROMPT_TAIL :: str where
  "PROMPT_TAIL =
     [10] @ ascii ''            ''"

text \<open>\<open>router_node\<close> (main.py, lines 131-133).\<close>

definition router_node :: "state \<Rightarrow> state" where
  "router_node state = state(ascii ''route'' \<mapsto> PStr (ascii ''RETRIEVAL''))"

text \<open>
  \<open>retrieval_node\<close> (main.py, lines 135-138). \<open>retriever\<close> stands for
  \<open>retriever.invoke\<close> followed by reading \<open>page_content\<close> of every returned document:
  the contents, or the exception raised (the query is embedded through the embedding
  service before the index is searched). The call is in no \<open>try\<close> block, so its exception
  leaves the node.
\<close>

definition retrieval_node ::
  "(str \<Rightarrow> error + str list) \<Rightarrow> session_state \<Rightarrow> state \<Rightarrow> error + state" where
  "retrieval_node retriever ss state =
     (case dict_item state (ascii ''question'') of
        Inl e \<Rightarrow> Inl e
      | Inr PNone \<Rightarrow> Inl AttributeError
      | Inr (PStr question) \<Rightarrow>
          (case retriever (mask_pii ss question) of
             Inl e \<Rightarrow> Inl e
           | Inr docs \<Rightarrow>
               Inr (state(ascii ''context'' \<mapsto>
                      (if docs \<noteq> [] then PStr (str_join [10] docs) else PNone)))))"

text \<open>
  The body of the \<open>try\<close> block of \<open>output_node\<close> (main.py, lines 142-164): the prompt
  is built from the state, masked, and given to the model. \<open>llm\<close> stands for
  \<open>llm.invoke\<close>, which returns the reply or raises.
\<close>

definition build_prompt :: "state \<Rightarrow> error + str" where
  "build_prompt state =
     (case dict_item state (ascii ''context'') of
        Inl e \<Rightarrow> Inl e
      | Inr c \<Rightarrow>
          (case dict_item state (ascii ''question'') of
             Inl e \<Rightarrow> Inl e
           | Inr q \<Rightarrow>
               Inr (PROMPT_HEAD @ format_value c @ PROMPT_MID @ format_value q @ PROMPT_TAIL)))"

definition generate :: "(str \<Rightarrow> error + str) \<Rightarrow> session_state \<Rightarrow> state \<Rightarrow> error + state" where
  "generate llm ss state =
     (case build_prompt state of
        Inl e \<Rightarrow> Inl e
      | Inr prompt \<Rightarrow>
          (case llm (mask_pii ss prompt) of
             Inl e \<Rightarrow> Inl e
           | Inr reply \<Rightarrow> Inr (state(ascii ''answer'' \<mapsto> PStr reply))))"

text \<open>
  \<open>output_node\<close> (main.py, lines 140-171): the \<open>try\<close> block with its \<open>except\<close> branch,
  then the re-injection of the name, which is outside the \<open>try\<close>.
\<close>

definition output_node :: "(str \<Rightarrow> error + str) \<Rightarrow> session_state \<Rightarrow> state \<Rightarrow> error + state" where
  "output_node llm ss state =
     (let state = (case generate llm ss state of
                     Inl e \<Rightarrow> state(ascii ''answer'' \<mapsto> PStr UNAVAILABLE)
                   | Inr state' \<Rightarrow> state')
      in if user_info ss \<noteq> None
         then (case dict_item state (ascii ''answer'') of
                 Inl e \<Rightarrow> Inl e
               | Inr PNone \<Rightarrow> Inl AttributeError
               | Inr (PStr answer) \<Rightarrow>
                   (case unmask_name ss answer of
                      Inl e \<Rightarrow> Inl e
                    | Inr answer' \<Rightarrow> Inr (state(ascii ''answer'' \<mapsto> PStr answer'))))
         else Inr state)"

text \<open>
  The compiled graph (main.py, lines 173-181): router, then retrieval, then output.
\<close>

definition app_invoke ::
  "(str \<Rightarrow> error + str list) \<Rightarrow> (str \<Rightarrow> error + str) \<Rightarrow> session_state \<Rightarrow> state
     \<Rightarrow> error + state" where
  "app_invoke retriever llm ss state =
     (case retrieval_node retriever ss (router_node state) of
        Inl e \<Rightarrow> Inl e
      | Inr state' \<Rightarrow> output_node llm ss state')"

text \<open>The state \<open>main\<close> builds for a question (main.py, line 254).\<close>

definition initial_state :: "str \<Rightarrow> state" where
  "initial_state user_input = Map.empty(ascii ''question'' \<mapsto> PStr user_input)"

section \<open>Artifacts and effects\<close>

text \<open>
  The files the program reads and writes, each absent (\<open>None\<close>) or holding its decoded
  JSON content, and the log of the operations performed on the outside world.
  \<open>'idx\<close> is the type of a built vector index.
\<close>

type_synonym json_object = "str \<rightharpoonup> str"

datatype effect =
    BrowserLaunch
  | BrowserGet str
  | Sleep nat
  | BrowserScroll
  | BrowserQuit
  | FileWrite str
  | Embed "str list"

record 'idx world =
  knowledge_json :: "json_object list option"
  chunks_json :: "str list option"
  faiss_index :: "'idx option"
  user_data_json :: "json_object list option"
  chat_history_json :: "(str \<rightharpoonup> chat_turn list) option"
  trace :: "effect list"

definition BASE_URL :: str where "BASE_URL = ascii ''https://www.occamsadvisory.com/''"
definition VECTORSTORE_PATH :: str where "VECTORSTORE_PATH = ascii ''faiss_index''"
definition USER_FILE :: str where "USER_FILE = ascii ''user_data.json''"
definition CHAT_FILE :: str where "CHAT_FILE = ascii ''chat_history.json''"

section \<open>Scraper\<close>

definition selectors :: "str list" where
  "selectors =
     [ascii ''div.et_pb_text_inner'', ascii ''section.et_pb_section p'', ascii ''h1, h2, h3'']"

text \<open>The dictionary appended for a kept text (main.py, line 46).\<close>

definition knowledge_entry :: "str \<Rightarrow> json_object" where
  "knowledge_entry text = Map.empty(ascii ''content'' \<mapsto> text, ascii ''url'' \<mapsto> BASE_URL)"

text \<open>
  The two nested loops of \<open>scrape_occams\<close> (main.py, lines 41-46) over the pair
  \<open>(data, seen_text)\<close>. A document is given by what the loops read of it: for a selector,
  the \<open>get_text(strip=True)\<close> of every tag that \<open>soup.select\<close> returns, in its order.
\<close>

type_synonym document = "str \<Rightarrow> str list"

fun scrape_tags :: "str list \<Rightarrow> json_object list \<times> str set \<Rightarrow> json_object list \<times> str set" where
  "scrape_tags [] acc = acc"
| "scrape_tags (text # rest) (data, seen_text) =
     (if text \<noteq> [] \<and> 30 < length text \<and> text \<notin> seen_text
      then scrape_tags rest (data @ [knowledge_entry text], insert text seen_text)
      else scrape_tags rest (data, seen_text))"

fun scrape_selectors ::
  "document \<Rightarrow> str list \<Rightarrow> json_object list \<times> str set \<Rightarrow> json_object list \<times> str set" where
  "scrape_selectors soup [] acc = acc"
| "scrape_selectors soup (sel # sels) acc = scrape_selectors soup sels (scrape_tags (soup sel) acc)"

definition extract_entries :: "document \<Rightarrow> json_object list" where
  "extract_entries soup = fst (scrape_selectors soup selectors ([], {}))"

text \<open>
  The filter and the deduplication in the words of the design: a text is kept when it is
  longer than the threshold of 30 characters, and of equal texts only the first is kept.
  These two definitions are the specification the loops are compared with.
\<close>

definition long_enough :: "str \<Rightarrow> bool" where
  "long_enough text \<longleftrightarrow> text \<noteq> [] \<and> 30 < length text"

function keep_first_occurrences :: "'a list \<Rightarrow> 'a list" where
  "keep_first_occurrences [] = []"
| "keep_first_occurrences (x # xs) = x # keep_first_occurrences (removeAll x xs)"
  by pat_completeness auto
termination
  by (relation "measure length") (simp_all add: less_Suc_eq_le)

text \<open>
  \<open>scrape_occams\<close> (main.py, lines 22-49). \<open>page\<close> is the outcome of the browser session:
  the parsed page, or the exception it raised. An exception ends the run before anything
  is written.
\<close>

definition scrape_occams :: "error + document \<Rightarrow> 'idx world \<Rightarrow> error + 'idx world" where
  "scrape_occams page w =
     (if knowledge_json w \<noteq> None then Inr w
      else (case page of
              Inl e \<Rightarrow> Inl e
            | Inr soup \<Rightarrow>
                Inr (w\<lparr>knowledge_json := Some (extract_entries soup),
                       trace := trace w @
                         [BrowserLaunch, BrowserGet BASE_URL, Sleep 5, BrowserScroll, Sleep 2,
                          BrowserQuit, FileWrite (ascii ''knowledge.json'')]\<rparr>)))"

section \<open>Chunker\<close>

text \<open>The comprehension \<open>[entry["content"] for entry in knowledge]\<close> (main.py, line 60).\<close>

fun chunk_texts :: "json_object list \<Rightarrow> error + str list" where
  "chunk_texts [] = Inr []"
| "chunk_texts (entry # knowledge) =
     (case dict_item entry (ascii ''content'') of
        Inl e \<Rightarrow> Inl e
      | Inr c \<Rightarrow>
          (case chunk_texts knowledge of
             Inl e \<Rightarrow> Inl e
           | Inr cs \<Rightarrow> Inr (c # cs)))"

text \<open>\<open>make_chunks\<close> (main.py, lines 54-62).\<close>

definition make_chunks :: "'idx world \<Rightarrow> error + 'idx world" where
  "make_chunks w =
     (if chunks_json w \<noteq> None then Inr w
      else (case knowledge_json w of
              None \<Rightarrow> Inl (FileNotFoundError (ascii ''knowledge.json''))
            | Some knowledge \<Rightarrow>
                (case chunk_texts knowledge of
                   Inl e \<Rightarrow> Inl e
                 | Inr chunks \<Rightarrow>
                     Inr (w\<lparr>chunks_json := Some chunks,
                            trace := trace w @ [FileWrite (ascii ''chunks.json'')]\<rparr>))))"

section \<open>Embedding index\<close>

text \<open>
  \<open>build_embeddings\<close> (main.py, lines 66-75). \<open>from_documents\<close> stands for
  \<open>FAISS.from_documents\<close> with the Ollama embeddings: the built index, or the exception
  raised.
\<close>

definition build_embeddings :: "(str list \<Rightarrow> error + 'idx) \<Rightarrow> 'idx world \<Rightarrow> error + 'idx world" where
  "build_embeddings from_documents w =
     (if faiss_index w \<noteq> None then Inr w
      else (case chunks_json w of
              None \<Rightarrow> Inl (FileNotFoundError (ascii ''chunks.json''))
            | Some texts \<Rightarrow>
                (case from_documents texts of
                   Inl e \<Rightarrow> Inl e
                 | Inr vectorstore \<Rightarrow>
                     Inr (w\<lparr>faiss_index := Some vectorstore,
                            trace := trace w @ [Embed texts, FileWrite VECTORSTORE_PATH]\<rparr>))))"

text \<open>The preprocessing at the start of \<open>main\<close> (main.py, lines 104-106).\<close>

definition ingest ::
  "error + document \<Rightarrow> (str list \<Rightarrow> error + 'idx) \<Rightarrow> 'idx world \<Rightarrow> error + 'idx world" where
  "ingest page from_documents w =
     (case scrape_occams page w of
        Inl e \<Rightarrow> Inl e
      | Inr w1 \<Rightarrow>
          (case make_chunks w1 of
             Inl e \<Rightarrow> Inl e
           | Inr w2 \<Rightarrow> build_embeddings from_documents w2))"

section \<open>Chat history store\<close>

text \<open>\<open>load_chat\<close> (main.py, lines 87-91).\<close>

definition load_chat :: "'idx world \<Rightarrow> str \<Rightarrow> chat_turn list" where
  "load_chat w user_email =
     (case chat_history_json w of
        Some all_history \<Rightarrow> dict_get all_history user_email []
      | None \<Rightarrow> [])"

text \<open>\<open>save_chat\<close> (main.py, lines 94-97).\<close>

definition save_chat :: "'idx world \<Rightarrow> str \<Rightarrow> chat_turn list \<Rightarrow> 'idx world" where
  "save_chat w user_email history =
     (let all_history = (case chat_history_json w of Some h \<Rightarrow> h | None \<Rightarrow> Map.empty);
          all_history = all_history(user_email \<mapsto> history)
      in w\<lparr>chat_history_json := Some all_history, trace := trace w @ [FileWrite CHAT_FILE]\<rparr>)"

section \<open>Example inputs\<close>

text \<open>Concrete inputs at which the theorems below are instantiated.\<close>

definition no_results :: "str \<Rightarrow> error + str list" where
  "no_results query = Inr []"

definition failing_search :: "str \<Rightarrow> error + str list" where
  "failing_search query = Inl ExternalError"


definition services_text :: str where
  "services_text = ascii ''We provide accounting and tax advisory services.''"

definition heading_text :: str where
  "heading_text = ascii ''Occams Advisory''"

definition example_page :: document where
  "example_page sel =
     (if sel = ascii ''div.et_pb_text_inner'' then [services_text, heading_text]
      else if sel = ascii ''section.et_pb_section p'' then [services_text]
      else [])"

definition empty_world :: "unit world" where
  "empty_world =
     \<lparr>knowledge_json = None, chunks_json = None, faiss_index = None,
      user_data_json = None, chat_history_json = None, trace = []\<rparr>"

definition scraped_world :: "unit world" where
  "scraped_world =
     \<lparr>knowledge_json = Some [knowledge_entry services_text], chunks_json = None,
      faiss_index = None, user_data_json = None, chat_history_json = None, trace = []\<rparr>"

definition careers_text :: str where
  "careers_text = ascii ''Join our advisory team and grow your career with us.''"

definition two_entry_world :: "unit world" where
  "two_entry_world =
     \<lparr>knowledge_json = Some [knowledge_entry services_text, knowledge_entry careers_text],
      chunks_json = None, faiss_index = None, user_data_json = None,
      chat_history_json = None, trace = []\<rparr>"

definition built_world :: "unit world" where
  "built_world =
     \<lparr>knowledge_json = Some [knowledge_entry services_text], chunks_json = Some [services_text],
      faiss_index = Some (), user_data_json = None, chat_history_json = None, trace = []\<rparr>"

definition example_turn :: chat_turn where
  "example_turn = \<lparr>user = ascii ''hi'', ai = PStr (ascii ''Hello!'')\<rparr>"

definition chat_world :: "unit world" where
  "chat_world =
     \<lparr>knowledge_json = None, chunks_json = None, faiss_index = None, user_data_json = None,
      chat_history_json = Some (Map.empty(ascii ''bo@x.com'' \<mapsto> [example_turn])), trace = []\<rparr>"

definition ana :: session_state where
  "ana =
     \<lparr>onboarding_complete = Some True,
      user_info = Some (Map.empty(ascii ''name'' \<mapsto> ascii ''Ana Li'',
                                  ascii ''email'' \<mapsto> ascii ''ana@x.com'',
                                  ascii ''phone'' \<mapsto> ascii ''5551234'')),
      chat_history = Some [], form_id = Some 0\<rparr>"

definition mai :: session_state where
  "mai =
     \<lparr>onboarding_complete = Some True,
      user_info = Some (Map.empty(ascii ''name'' \<mapsto> ascii ''MAI'',
                                  ascii ''email'' \<mapsto> ascii ''mai@x.com'',
                                  ascii ''phone'' \<mapsto> ascii ''5551234'')),
      chat_history = Some [], form_id = Some 0\<rparr>"

definition example_text :: str where
  "example_text = ascii ''I am Ana Li, ana@x.com, 5551234.''"

definition failing_llm :: "str \<Rightarrow> error + str" where
  "failing_llm prompt = Inl ExternalError"

definition greeting_llm :: "str \<Rightarrow> error + str" where
  "greeting_llm prompt = Inr (ascii ''Hello [NAME], how can we help?'')"

definition retrieved_state :: state where
  "retrieved_state =
     Map.empty(ascii ''question'' \<mapsto> PStr (ascii ''hi''),
               ascii ''route'' \<mapsto> PStr (ascii ''RETRIEVAL''),
               ascii ''context'' \<mapsto> PNone)"

section \<open>Properties of masking\<close>



text \<open>
  The guard of \<open>mask_pii\<close> tests the presence of the key. While nobody is signed in
  \<open>main\<close> keeps the empty dictionary under \<open>user_info\<close> (main.py, lines 190-191 and 244);
  with it every field reads as the empty string and each \<open>replace\<close> inserts its
  placeholder before every character and at the end. \<open>main\<close> runs the pipeline, the only
  caller of \<open>mask_pii\<close>, when onboarding is complete, so this state does not meet a call.
\<close>

lemma mask_pii_empty_user_info:
  "mask_pii logged_out (ascii ''hi'') \<noteq> ascii ''hi''
   \<and> length (mask_pii logged_out (ascii ''hi'')) = 1343
   \<and> prefix PHONE_TOKEN (mask_pii logged_out (ascii ''hi''))"
  by (simp add: mask_pii_def logged_out_def dict_get_def str_replace_def ascii_def
      NAME_TOKEN_def EMAIL_TOKEN_def PHONE_TOKEN_def)

section \<open>Occurrences and replacement\<close>

text \<open>
  An occurrence of \<open>f\<close> in a string (Python's \<open>f in s\<close>) is \<open>sublist f s\<close>. An occurrence
  cannot extend over a character that \<open>f\<close> does not contain.
\<close>

lemma sublist_barrier:
  assumes "c \<notin> set f"
  shows "sublist f (a @ c # b) \<longleftrightarrow> sublist f a \<or> sublist f b"
proof
  assume "sublist f (a @ c # b)"
  then obtain ps ss where eq: "a @ c # b = ps @ f @ ss"
    by (auto simp add: sublist_def)
  show "sublist f a \<or> sublist f b"
  proof (cases "length ps + length f \<le> length a")
    case True
    from eq have "take (length ps + length f) (a @ c # b) = ps @ f"
      by simp
    with True have "take (length ps + length f) a = ps @ f"
      by simp
    then have "a = ps @ f @ drop (length ps + length f) a"
      by (metis append_assoc append_take_drop_id)
    then show ?thesis
      using sublist_appendI by metis
  next
    case False
    have "length a < length ps"
    proof (rule ccontr)
      assume "\<not> length a < length ps"
      with False have lo: "length ps \<le> length a" and hi: "length a - length ps < length f"
        by simp_all
      from eq have "(a @ c # b) ! length a = (ps @ f @ ss) ! length a"
        by simp
      with lo hi have "c = f ! (length a - length ps)"
        by (simp add: nth_append)
      with hi assms show False
        by (metis nth_mem)
    qed
    then have "length a + 1 \<le> length ps"
      by simp
    from eq have "drop (length a + 1) (a @ c # b) = drop (length a + 1) (ps @ f @ ss)"
      by simp
    with \<open>length a + 1 \<le> length ps\<close> have "b = drop (length a + 1) ps @ f @ ss"
      by simp
    then show ?thesis
      using sublist_appendI by metis
  qed
next
  assume "sublist f a \<or> sublist f b"
  then show "sublist f (a @ c # b)"
  proof
    assume "sublist f a"
    then obtain ps ss where "a = ps @ f @ ss"
      by (auto simp add: sublist_def)
    then have "a @ c # b = ps @ f @ (ss @ c # b)"
      by simp
    then show ?thesis
      using sublist_appendI by metis
  next
    assume "sublist f b"
    then obtain ps ss where "b = ps @ f @ ss"
      by (auto simp add: sublist_def)
    then have "a @ c # b = (a @ c # ps) @ f @ ss"
      by simp
    then show ?thesis
      using sublist_appendI by metis
  qed
qed

lemma prefix_replace_scan:
  assumes "new \<noteq> []"
  shows "hd new \<notin> set f \<Longrightarrow> prefix f (replace_scan old new s) \<Longrightarrow> prefix f s"
proof (induction s arbitrary: f)
  case Nil
  then show ?case by simp
next
  case (Cons x xs)
  show ?case
  proof (cases "old \<noteq> [] \<and> prefix old (x # xs)")
    case True
    with Cons.prems have "prefix f (new @ replace_scan old new (drop (length old) (x # xs)))"
      by simp
    with Cons.prems(1) assms have "f = []"
      by (cases f; cases new) auto
    then show ?thesis by simp
  next
    case False
    with Cons.prems have p: "prefix f (x # replace_scan old new xs)"
      by auto
    show ?thesis
    proof (cases f)
      case Nil
      then show ?thesis by simp
    next
      case (Cons y ys)
      with p have "y = x" and "prefix ys (replace_scan old new xs)"
        by simp_all
      moreover from Cons Cons.prems(1) have "hd new \<notin> set ys" by simp
      ultimately have "prefix ys xs"
        using Cons.IH [of ys] by simp
      with \<open>y = x\<close> Cons show ?thesis by simp
    qed
  qed
qed

lemma sublist_token:
  assumes "l \<notin> set f" and "r \<notin> set f" and "\<not> sublist f w" and "\<not> sublist f rest"
  shows "\<not> sublist f ((l # w @ [r]) @ rest)"
proof -
  have "sublist f ([] @ l # (w @ r # rest)) \<longleftrightarrow> sublist f [] \<or> sublist f (w @ r # rest)"
    using assms(1) by (rule sublist_barrier)
  moreover have "sublist f (w @ r # rest) \<longleftrightarrow> sublist f w \<or> sublist f rest"
    using assms(2) by (rule sublist_barrier)
  moreover have "f \<noteq> []"
    using assms(3) by auto
  ultimately show ?thesis
    using assms(3,4) by simp
qed

lemma replace_scan_no_occurrence:
  "l \<notin> set f \<Longrightarrow> r \<notin> set f \<Longrightarrow> \<not> sublist f w \<Longrightarrow> new = l # w @ [r]
     \<Longrightarrow> f = old \<or> \<not> sublist f s
     \<Longrightarrow> \<not> sublist f (replace_scan old new s)"
proof (induction old new s rule: replace_scan.induct)
  case (1 old new)
  then have "f \<noteq> []" by auto
  then show ?case by simp
next
  case (2 old new x xs)
  from "2.prems"(3) have f: "f \<noteq> []" by auto
  show ?case
  proof (cases "old \<noteq> [] \<and> prefix old (x # xs)")
    case True
    have "f = old \<or> \<not> sublist f (drop (length old) (x # xs))"
    proof (cases "f = old")
      case False
      with "2.prems"(5) have "\<not> sublist f (x # xs)" by simp
      moreover have "sublist (drop (length old) (x # xs)) (x # xs)"
        by (rule sublist_drop)
      ultimately show ?thesis
        using sublist_order.order.trans by blast
    qed simp
    with "2.IH"(1) [OF True "2.prems"(1-4)]
    have "\<not> sublist f (replace_scan old new (drop (length old) (x # xs)))"
      by simp
    with "2.prems"(1-4) have "\<not> sublist f (new @ replace_scan old new (drop (length old) (x # xs)))"
      using sublist_token by metis
    with True show ?thesis by simp
  next
    case False
    have "f = old \<or> \<not> sublist f xs"
      using "2.prems"(5) by (auto simp add: sublist_Cons_right)
    with "2.IH"(2) [OF False "2.prems"(1-4)]
    have rest: "\<not> sublist f (replace_scan old new xs)"
      by simp
    have "\<not> prefix f (x # replace_scan old new xs)"
    proof
      assume "prefix f (x # replace_scan old new xs)"
      with False have "prefix f (replace_scan old new (x # xs))"
        by auto
      moreover from "2.prems"(1,4) have "new \<noteq> []" and "hd new \<notin> set f"
        by simp_all
      ultimately have p: "prefix f (x # xs)"
        using prefix_replace_scan by metis
      from "2.prems"(5) show False
      proof
        assume "f = old"
        with p f False show False by simp
      next
        assume "\<not> sublist f (x # xs)"
        with p show False by auto
      qed
    qed
    with rest False show ?thesis
      by (auto simp add: sublist_Cons_right)
  qed
qed

lemma replace_scan_skip:
  "hd old \<notin> set t \<Longrightarrow> replace_scan old new (t @ v) = t @ replace_scan old new v"
proof (induction t)
  case Nil
  then show ?case by simp
next
  case (Cons x t)
  then have "\<not> (old \<noteq> [] \<and> prefix old (x # t @ v))"
    by (cases old) auto
  then have "replace_scan old new (x # t @ v) = x # replace_scan old new (t @ v)"
    by auto
  with Cons show ?case by simp
qed

lemma replace_scan_keeps_token:
  assumes old: "old = c # old'" "c \<notin> set old'"
    and tok: "tok = c # tok'" "c \<notin> set tok'"
    and differ: "\<And>v. \<not> prefix old (tok @ v)"
  shows "replace_scan old new (u @ tok @ v) =
           replace_scan old new u @ tok @ replace_scan old new v"
proof (induction u rule: length_induct)
  case (1 u)
  show ?case
  proof (cases u)
    case Nil
    have "replace_scan old new (tok @ v) = c # replace_scan old new (tok' @ v)"
      using differ [of v] tok(1) by simp
    also have "replace_scan old new (tok' @ v) = tok' @ replace_scan old new v"
      using old(1) tok(2) by (intro replace_scan_skip) simp
    finally show ?thesis using Nil tok(1) by simp
  next
    case (Cons x xs)
    show ?thesis
    proof (cases "prefix old (x # xs)")
      case True
      then have len: "length old \<le> length (x # xs)"
        by (rule prefix_length_le)
      from True have "prefix old ((x # xs) @ tok @ v)"
        by (rule prefix_prefix)
      then have "replace_scan old new ((x # xs) @ tok @ v) =
          new @ replace_scan old new (drop (length old) ((x # xs) @ tok @ v))"
        using old(1) by simp
      also from len have "drop (length old) ((x # xs) @ tok @ v) =
          drop (length old) (x # xs) @ tok @ v"
        using drop_append [of "length old" "x # xs" "tok @ v"] by simp
      also have "replace_scan old new (drop (length old) (x # xs) @ tok @ v) =
          replace_scan old new (drop (length old) (x # xs)) @ tok @ replace_scan old new v"
        using "1.IH" Cons old(1) by simp
      finally show ?thesis
        using True old(1) Cons by simp
    next
      case False
      have "\<not> prefix old ((x # xs) @ tok @ v)"
      proof
        assume "prefix old ((x # xs) @ tok @ v)"
        then have "prefix old (x # xs) \<or> (\<exists>us. old = (x # xs) @ us \<and> prefix us (tok @ v))"
          by (simp only: prefix_append)
        with False obtain us where us: "old = (x # xs) @ us" and p: "prefix us (tok @ v)"
          by blast
        from us False have "us \<noteq> []" by auto
        with p tok(1) have "hd us = c"
          by (cases us) auto
        with \<open>us \<noteq> []\<close> have "c \<in> set us" by (cases us) auto
        moreover from us old(1) have "old' = xs @ us" by simp
        ultimately show False using old(2) by simp
      qed
      then have "replace_scan old new ((x # xs) @ tok @ v) =
          x # replace_scan old new (xs @ tok @ v)"
        by simp
      also have "replace_scan old new (xs @ tok @ v) =
          replace_scan old new xs @ tok @ replace_scan old new v"
        using "1.IH" Cons by simp
      finally show ?thesis
        using False Cons by simp
    qed
  qed
qed

section \<open>Masking with a profile\<close>

lemma mask_pii_profile_eq:
  assumes "user_info ss = Some info"
    and "info (ascii ''name'') = Some name"
    and "info (ascii ''email'') = Some email"
    and "info (ascii ''phone'') = Some phone"
  shows "mask_pii ss text =
           str_replace (str_replace (str_replace text name NAME_TOKEN) email EMAIL_TOKEN)
             phone PHONE_TOKEN"
  using assms by (simp add: mask_pii_def dict_get_def)

lemma token_shapes:
  "NAME_TOKEN = 91 # ascii ''NAME'' @ [93]"
  "EMAIL_TOKEN = 91 # ascii ''EMAIL'' @ [93]"
  "PHONE_TOKEN = 91 # ascii ''PHONE'' @ [93]"
  by (simp_all add: NAME_TOKEN_def EMAIL_TOKEN_def PHONE_TOKEN_def ascii_def)

lemma str_replace_no_occurrence:
  assumes "tok = 91 # w @ [93]" and "\<not> sublist f w" and "bracket_free f" and "old \<noteq> []"
    and "f = old \<or> \<not> sublist f s"
  shows "\<not> sublist f (str_replace s old tok)"
proof -
  from assms(3) have "91 \<notin> set f" and "93 \<notin> set f"
    by (simp_all add: bracket_free_def)
  then have "\<not> sublist f (replace_scan old tok s)"
    using assms(1,2,5) by (intro replace_scan_no_occurrence [of 91 f 93 w]) simp_all
  with assms(4) show ?thesis by (simp add: str_replace_def)
qed

lemma unmask_keeps_email:
  "str_replace (u @ EMAIL_TOKEN @ v) NAME_TOKEN n =
     str_replace u NAME_TOKEN n @ EMAIL_TOKEN @ str_replace v NAME_TOKEN n"
proof -
  have "replace_scan NAME_TOKEN n (u @ EMAIL_TOKEN @ v) =
          replace_scan NAME_TOKEN n u @ EMAIL_TOKEN @ replace_scan NAME_TOKEN n v"
    by (rule replace_scan_keeps_token [of _ 91 "ascii ''NAME]''" _ "ascii ''EMAIL]''"])
       (simp_all add: NAME_TOKEN_def EMAIL_TOKEN_def ascii_def)
  moreover have "NAME_TOKEN \<noteq> []"
    by (simp add: NAME_TOKEN_def ascii_def)
  ultimately show ?thesis by (simp add: str_replace_def)
qed

lemma unmask_keeps_phone:
  "str_replace (u @ PHONE_TOKEN @ v) NAME_TOKEN n =
     str_replace u NAME_TOKEN n @ PHONE_TOKEN @ str_replace v NAME_TOKEN n"
proof -
  have "replace_scan NAME_TOKEN n (u @ PHONE_TOKEN @ v) =
          replace_scan NAME_TOKEN n u @ PHONE_TOKEN @ replace_scan NAME_TOKEN n v"
    by (rule replace_scan_keeps_token [of _ 91 "ascii ''NAME]''" _ "ascii ''PHONE]''"])
       (simp_all add: NAME_TOKEN_def PHONE_TOKEN_def ascii_def)
  moreover have "NAME_TOKEN \<noteq> []"
    by (simp add: NAME_TOKEN_def ascii_def)
  ultimately show ?thesis by (simp add: str_replace_def)
qed

text \<open>
  Claim C1, as stated, fails: a placeholder inserted by a later replacement can contain an
  earlier field. For the profile with name \<open>MAI\<close> and email \<open>mai@x.com\<close> the masked text
  \<open>[NAME] [EMAIL]\<close> contains the name again, inside the email placeholder.
\<close>

theorem mask_pii_counterexample:
  "mask_pii mai (ascii ''MAI mai@x.com'') = ascii ''[NAME] [EMAIL]''
   \<and> sublist (ascii ''MAI'') (ascii ''[NAME] [EMAIL]'')"
  by (simp add: mask_pii_def mai_def dict_get_def str_replace_def ascii_def
      NAME_TOKEN_def EMAIL_TOKEN_def PHONE_TOKEN_def sublist_Cons_right)

text \<open>
  Claim C1, amended. For a profile whose name, email and phone are non-empty, contain no
  square bracket and do not occur inside the placeholder word of their own or of a later
  replacement, and for every text: \<open>mask_pii\<close> is the replacement of the name, then of the
  email, then of the phone by their placeholders; the masked text contains no occurrence of
  the name, the email or the phone; and the re-injection replaces \<open>[NAME]\<close> by the name and
  leaves every \<open>[EMAIL]\<close> and \<open>[PHONE]\<close> placeholder of its input where it is.
\<close>

theorem mask_pii_profile:
  assumes "user_info ss = Some info"
    and "info (ascii ''name'') = Some name"
    and "info (ascii ''email'') = Some email"
    and "info (ascii ''phone'') = Some phone"
    and "name \<noteq> []" and "email \<noteq> []" and "phone \<noteq> []"
    and "bracket_free name" and "bracket_free email" and "bracket_free phone"
    and "\<not> sublist name (ascii ''NAME'')" and "\<not> sublist name (ascii ''EMAIL'')"
    and "\<not> sublist name (ascii ''PHONE'')"
    and "\<not> sublist email (ascii ''EMAIL'')" and "\<not> sublist email (ascii ''PHONE'')"
    and "\<not> sublist phone (ascii ''PHONE'')"
  shows "mask_pii ss text =
           str_replace (str_replace (str_replace text name NAME_TOKEN) email EMAIL_TOKEN)
             phone PHONE_TOKEN
         \<and> \<not> sublist name (mask_pii ss text)
         \<and> \<not> sublist email (mask_pii ss text)
         \<and> \<not> sublist phone (mask_pii ss text)
         \<and> unmask_name ss answer = Inr (str_replace answer NAME_TOKEN name)
         \<and> (\<forall>u v. str_replace (u @ EMAIL_TOKEN @ v) NAME_TOKEN name =
               str_replace u NAME_TOKEN name @ EMAIL_TOKEN @ str_replace v NAME_TOKEN name)
         \<and> (\<forall>u v. str_replace (u @ PHONE_TOKEN @ v) NAME_TOKEN name =
               str_replace u NAME_TOKEN name @ PHONE_TOKEN @ str_replace v NAME_TOKEN name)"
proof -
  let ?m1 = "str_replace text name NAME_TOKEN"
  let ?m2 = "str_replace ?m1 email EMAIL_TOKEN"
  let ?m3 = "str_replace ?m2 phone PHONE_TOKEN"
  have eq: "mask_pii ss text = ?m3"
    using assms(1-4) by (rule mask_pii_profile_eq)
  have n1: "\<not> sublist name ?m1"
    using token_shapes(1) assms(11,8,5) by (rule str_replace_no_occurrence) simp
  have n2: "\<not> sublist name ?m2"
    using token_shapes(2) assms(12,8,6) by (rule str_replace_no_occurrence) (simp add: n1)
  have n3: "\<not> sublist name ?m3"
    using token_shapes(3) assms(13,8,7) by (rule str_replace_no_occurrence) (simp add: n2)
  have e2: "\<not> sublist email ?m2"
    using token_shapes(2) assms(14,9,6) by (rule str_replace_no_occurrence) simp
  have e3: "\<not> sublist email ?m3"
    using token_shapes(3) assms(15,9,7) by (rule str_replace_no_occurrence) (simp add: e2)
  have p3: "\<not> sublist phone ?m3"
    using token_shapes(3) assms(16,10,7) by (rule str_replace_no_occurrence) simp
  have un: "unmask_name ss answer = Inr (str_replace answer NAME_TOKEN name)"
    using assms(1,2) by (simp add: unmask_name_def dict_item_def)
  from eq n3 e3 p3 un unmask_keeps_email unmask_keeps_phone show ?thesis
    by simp
qed

theorem mask_pii_profile_witness:
  "mask_pii ana example_text = ascii ''I am [NAME], [EMAIL], [PHONE].''
   \<and> \<not> sublist (ascii ''Ana Li'') (mask_pii ana example_text)
   \<and> \<not> sublist (ascii ''ana@x.com'') (mask_pii ana example_text)
   \<and> \<not> sublist (ascii ''5551234'') (mask_pii ana example_text)
   \<and> unmask_name ana (mask_pii ana example_text) = Inr (ascii ''I am Ana Li, [EMAIL], [PHONE].'')"
proof -
  let ?info = "Map.empty(ascii ''name'' \<mapsto> ascii ''Ana Li'',
                         ascii ''email'' \<mapsto> ascii ''ana@x.com'',
                         ascii ''phone'' \<mapsto> ascii ''5551234'')"
  have u: "user_info ana = Some ?info"
    by (simp add: ana_def)
  have n: "?info (ascii ''name'') = Some (ascii ''Ana Li'')"
    and e: "?info (ascii ''email'') = Some (ascii ''ana@x.com'')"
    and p: "?info (ascii ''phone'') = Some (ascii ''5551234'')"
    by (simp_all add: ascii_def)
  have ne: "ascii ''Ana Li'' \<noteq> []" "ascii ''ana@x.com'' \<noteq> []" "ascii ''5551234'' \<noteq> []"
    by (simp_all add: ascii_def)
  have bf: "bracket_free (ascii ''Ana Li'')" "bracket_free (ascii ''ana@x.com'')"
    "bracket_free (ascii ''5551234'')"
    by (simp_all add: bracket_free_def ascii_def)
  have s: "\<not> sublist (ascii ''Ana Li'') (ascii ''NAME'')"
    "\<not> sublist (ascii ''Ana Li'') (ascii ''EMAIL'')"
    "\<not> sublist (ascii ''Ana Li'') (ascii ''PHONE'')"
    "\<not> sublist (ascii ''ana@x.com'') (ascii ''EMAIL'')"
    "\<not> sublist (ascii ''ana@x.com'') (ascii ''PHONE'')"
    "\<not> sublist (ascii ''5551234'') (ascii ''PHONE'')"
    by (simp_all add: ascii_def sublist_Cons_right)
  have m: "mask_pii ana example_text = ascii ''I am [NAME], [EMAIL], [PHONE].''"
    by (simp add: mask_pii_def ana_def example_text_def dict_get_def str_replace_def ascii_def
        NAME_TOKEN_def EMAIL_TOKEN_def PHONE_TOKEN_def)
  have r: "str_replace (ascii ''I am [NAME], [EMAIL], [PHONE].'') NAME_TOKEN (ascii ''Ana Li'') =
      ascii ''I am Ana Li, [EMAIL], [PHONE].''"
    by (simp add: str_replace_def ascii_def NAME_TOKEN_def)
  note th = mask_pii_profile [OF u n e p ne bf s, of example_text "mask_pii ana example_text"]
  from th have a: "\<not> sublist (ascii ''Ana Li'') (mask_pii ana example_text)"
    and b: "\<not> sublist (ascii ''ana@x.com'') (mask_pii ana example_text)"
    and c: "\<not> sublist (ascii ''5551234'') (mask_pii ana example_text)"
    and d: "unmask_name ana (mask_pii ana example_text) =
             Inr (str_replace (mask_pii ana example_text) NAME_TOKEN (ascii ''Ana Li''))"
    by blast+
  from d have "unmask_name ana (mask_pii ana example_text) =
      Inr (ascii ''I am Ana Li, [EMAIL], [PHONE].'')"
    by (simp only: m r)
  with m a b c show ?thesis by blast
qed

section \<open>Retrieval stage\<close>

lemma retrieval_node_context:
  assumes "state (ascii ''question'') = Some (PStr q)"
    and "retriever (mask_pii ss q) = Inr docs"
  shows "retrieval_node retriever ss state =
           Inr (state(ascii ''context'' \<mapsto>
                  (if docs \<noteq> [] then PStr (str_join [10] docs) else PNone)))"
  using assms by (simp add: retrieval_node_def dict_item_def)

lemma retrieval_node_raises:
  assumes "state (ascii ''question'') = Some (PStr q)"
    and "retriever (mask_pii ss q) = Inl e"
  shows "retrieval_node retriever ss state = Inl e"
  using assms by (simp add: retrieval_node_def dict_item_def)

text \<open>
  Claim C4. When the search returns no document for a question, the retrieval stage returns
  a state whose \<open>context\<close> is \<open>None\<close>: a value that is not the empty string and not the
  join of any list of retrieved contents.
\<close>

theorem retrieval_node_no_results:
  assumes "state (ascii ''question'') = Some (PStr q)"
    and "retriever (mask_pii ss q) = Inr []"
  shows "\<exists>state'. retrieval_node retriever ss state = Inr state'
           \<and> state' (ascii ''context'') = Some PNone
           \<and> state' (ascii ''context'') \<noteq> Some (PStr [])
           \<and> (\<forall>docs. state' (ascii ''context'') \<noteq> Some (PStr (str_join [10] docs)))"
  using assms by (simp add: retrieval_node_context)

theorem retrieval_node_no_results_witness:
  "\<exists>state'. retrieval_node no_results ana (router_node (initial_state (ascii ''hi''))) =
              Inr state'
           \<and> state' (ascii ''context'') = Some PNone
           \<and> state' (ascii ''context'') \<noteq> Some (PStr [])
           \<and> (\<forall>docs. state' (ascii ''context'') \<noteq> Some (PStr (str_join [10] docs)))"
proof -
  have q: "router_node (initial_state (ascii ''hi'')) (ascii ''question'') =
             Some (PStr (ascii ''hi''))"
    by (simp add: router_node_def initial_state_def ascii_def)
  have r: "no_results (mask_pii ana (ascii ''hi'')) = Inr []"
    by (simp add: no_results_def)
  show ?thesis
    using retrieval_node_no_results
      [of "router_node (initial_state (ascii ''hi''))" "ascii ''hi''" no_results ana, OF q r] .
qed

section \<open>Generation stage\<close>

lemma replace_scan_absent:
  "old \<noteq> [] \<Longrightarrow> hd old \<notin> set s \<Longrightarrow> replace_scan old new s = s"
proof (induction s)
  case Nil
  then show ?case by simp
next
  case (Cons x xs)
  from Cons.prems have "\<not> prefix old (x # xs)"
    by (cases old) auto
  with Cons show ?case by simp
qed

lemma unavailable_no_token: "str_replace UNAVAILABLE NAME_TOKEN n = UNAVAILABLE"
proof -
  have "NAME_TOKEN \<noteq> []" and "hd NAME_TOKEN = 91"
    by (simp_all add: NAME_TOKEN_def ascii_def)
  moreover have "91 \<notin> set UNAVAILABLE"
    by (simp add: UNAVAILABLE_def ascii_def)
  ultimately show ?thesis
    by (simp add: str_replace_def replace_scan_absent)
qed

lemma unmask_name_total:
  "name_available ss \<Longrightarrow> \<exists>a. unmask_name ss answer = Inr a"
  by (auto simp add: name_available_def unmask_name_def dict_item_def split: option.splits)

lemma unmask_name_unavailable:
  "name_available ss \<Longrightarrow> unmask_name ss UNAVAILABLE = Inr UNAVAILABLE"
  by (auto simp add: name_available_def unmask_name_def dict_item_def unavailable_no_token
      split: option.splits)

lemma generate_answer:
  "generate llm ss state = Inr state' \<Longrightarrow> \<exists>reply. state' = state(ascii ''answer'' \<mapsto> PStr reply)"
  by (auto simp add: generate_def split: sum.splits)

lemma output_node_caught:
  assumes "name_available ss" and "generate llm ss state = Inl e"
  shows "output_node llm ss state = Inr (state(ascii ''answer'' \<mapsto> PStr UNAVAILABLE))"
proof (cases "user_info ss")
  case None
  with assms(2) show ?thesis by (simp add: output_node_def)
next
  case (Some info)
  with assms unmask_name_unavailable [OF assms(1)] show ?thesis
    by (simp add: output_node_def dict_item_def)
qed

lemma output_node_total:
  assumes "name_available ss"
  shows "\<exists>a. output_node llm ss state = Inr (state(ascii ''answer'' \<mapsto> PStr a))"
proof (cases "generate llm ss state")
  case (Inl e)
  with output_node_caught [OF assms] show ?thesis by blast
next
  case (Inr state')
  then obtain reply where s: "state' = state(ascii ''answer'' \<mapsto> PStr reply)"
    using generate_answer by blast
  from unmask_name_total [OF assms] obtain a where a: "unmask_name ss reply = Inr a"
    by blast
  show ?thesis
  proof (cases "user_info ss")
    case None
    with Inr s show ?thesis by (auto simp add: output_node_def)
  next
    case (Some info)
    with Inr s a show ?thesis by (auto simp add: output_node_def dict_item_def)
  qed
qed

lemma generate_raises:
  "build_prompt state = Inr prompt \<Longrightarrow> llm (mask_pii ss prompt) = Inl e
     \<Longrightarrow> generate llm ss state = Inl e"
  by (simp add: generate_def)

lemma question_of_initial_state:
  "router_node (initial_state q) (ascii ''question'') = Some (PStr q)"
  by (simp add: router_node_def initial_state_def ascii_def)

lemma app_invoke_search_returns:
  assumes "name_available ss" and "retriever (mask_pii ss q) = Inr docs"
  shows "\<exists>state' a. app_invoke retriever llm ss (initial_state q) = Inr state'
           \<and> state' (ascii ''answer'') = Some (PStr a)"
proof -
  let ?retrieved = "(router_node (initial_state q))(ascii ''context'' \<mapsto>
      (if docs \<noteq> [] then PStr (str_join [10] docs) else PNone))"
  have r: "retrieval_node retriever ss (router_node (initial_state q)) = Inr ?retrieved"
    using question_of_initial_state assms(2) by (rule retrieval_node_context)
  from output_node_total [OF assms(1), of llm ?retrieved]
  obtain a where "output_node llm ss ?retrieved =
      Inr (?retrieved(ascii ''answer'' \<mapsto> PStr a))"
    by blast
  with r show ?thesis by (simp add: app_invoke_def)
qed

lemma app_invoke_search_raises:
  assumes "retriever (mask_pii ss q) = Inl e"
  shows "app_invoke retriever llm ss (initial_state q) = Inl e"
proof -
  have "retrieval_node retriever ss (router_node (initial_state q)) = Inl e"
    using question_of_initial_state assms by (rule retrieval_node_raises)
  then show ?thesis by (simp add: app_invoke_def)
qed

text \<open>
  Without a name in \<open>user_info\<close> the re-injection, which is outside the \<open>try\<close>, raises
  \<open>KeyError\<close>; \<open>main\<close> does not run the pipeline in that state.
\<close>

lemma output_node_logged_out_raises:
  "output_node failing_llm logged_out retrieved_state = Inl (KeyError (ascii ''name''))"
  by (simp add: output_node_def generate_def build_prompt_def retrieved_state_def dict_item_def
      failing_llm_def logged_out_def unmask_name_def ascii_def)

text \<open>
  Claim C3, as stated, fails: the search of the retrieval stage is called outside any
  \<open>try\<close>, so when it raises, the pipeline ends with that exception and no answer.
\<close>

theorem pipeline_search_failure_counterexample:
  "app_invoke failing_search greeting_llm ana (initial_state (ascii ''hi'')) = Inl ExternalError"
  by (simp add: app_invoke_def retrieval_node_def router_node_def initial_state_def dict_item_def
      failing_search_def ascii_def)

text \<open>
  Claim C3, amended. In a session where the re-injection finds a name, as in every session
  in which \<open>main\<close> runs the pipeline: when the model raises on the masked prompt,
  \<open>output_node\<close> returns the state with the fixed unavailability message as answer;
  \<open>output_node\<close> always returns a state with an answer string, never an exception; for every
  question whose search returns, the whole pipeline returns a state whose answer is a
  string; and an exception raised by the search is not caught and leaves the pipeline.
\<close>

theorem generation_failure_caught:
  assumes "name_available ss"
  shows "(\<forall>prompt e. build_prompt state = Inr prompt \<and> llm (mask_pii ss prompt) = Inl e \<longrightarrow>
            output_node llm ss state = Inr (state(ascii ''answer'' \<mapsto> PStr UNAVAILABLE)))
         \<and> (\<exists>a. output_node llm ss state = Inr (state(ascii ''answer'' \<mapsto> PStr a)))
         \<and> (\<forall>docs. retriever (mask_pii ss q) = Inr docs \<longrightarrow>
               (\<exists>state' a. app_invoke retriever llm ss (initial_state q) = Inr state'
                  \<and> state' (ascii ''answer'') = Some (PStr a)))
         \<and> (\<forall>e. retriever (mask_pii ss q) = Inl e \<longrightarrow>
               app_invoke retriever llm ss (initial_state q) = Inl e)"
proof -
  have 1: "\<forall>prompt e. build_prompt state = Inr prompt \<and> llm (mask_pii ss prompt) = Inl e \<longrightarrow>
            output_node llm ss state = Inr (state(ascii ''answer'' \<mapsto> PStr UNAVAILABLE))"
    using output_node_caught [OF assms] generate_raises by blast
  have 2: "\<exists>a. output_node llm ss state = Inr (state(ascii ''answer'' \<mapsto> PStr a))"
    by (rule output_node_total [OF assms])
  have 3: "\<forall>docs. retriever (mask_pii ss q) = Inr docs \<longrightarrow>
      (\<exists>state' a. app_invoke retriever llm ss (initial_state q) = Inr state'
         \<and> state' (ascii ''answer'') = Some (PStr a))"
    using app_invoke_search_returns [OF assms] by blast
  have 4: "\<forall>e. retriever (mask_pii ss q) = Inl e \<longrightarrow>
      app_invoke retriever llm ss (initial_state q) = Inl e"
    using app_invoke_search_raises by blast
  from 1 2 3 4 show ?thesis by blast
qed

theorem generation_failure_caught_witness:
  "output_node failing_llm ana retrieved_state =
     Inr (retrieved_state(ascii ''answer'' \<mapsto> PStr UNAVAILABLE))
   \<and> (\<exists>state' a. app_invoke no_results failing_llm ana (initial_state (ascii ''hi'')) = Inr state'
         \<and> state' (ascii ''answer'') = Some (PStr a))"
proof -
  have n: "name_available ana"
    by (simp add: name_available_def ana_def ascii_def)
  have b: "build_prompt retrieved_state =
      Inr (PROMPT_HEAD @ ascii ''None'' @ PROMPT_MID @ ascii ''hi'' @ PROMPT_TAIL)"
    by (simp add: build_prompt_def retrieved_state_def dict_item_def ascii_def)
  have f: "failing_llm (mask_pii ana
      (PROMPT_HEAD @ ascii ''None'' @ PROMPT_MID @ ascii ''hi'' @ PROMPT_TAIL)) = Inl ExternalError"
    by (simp add: failing_llm_def)
  have s: "no_results (mask_pii ana (ascii ''hi'')) = Inr []"
    by (simp add: no_results_def)
  note th = generation_failure_caught
    [OF n, of retrieved_state failing_llm no_results "ascii ''hi''"]
  from th b f have "output_node failing_llm ana retrieved_state =
     Inr (retrieved_state(ascii ''answer'' \<mapsto> PStr UNAVAILABLE))"
    by blast
  moreover from th s have "\<exists>state' a.
      app_invoke no_results failing_llm ana (initial_state (ascii ''hi'')) = Inr state'
      \<and> state' (ascii ''answer'') = Some (PStr a)"
    by blast
  ultimately show ?thesis by blast
qed

section \<open>Idempotent build\<close>

text \<open>
  A build from nothing does perform the operations, so the log is a faithful record of them.
\<close>

lemma ingest_from_scratch:
  "ingest (Inr example_page) (\<lambda>texts. Inr ()) empty_world =
     Inr \<lparr>knowledge_json = Some [knowledge_entry services_text],
          chunks_json = Some [services_text],
          faiss_index = Some (), user_data_json = None, chat_history_json = None,
          trace = [BrowserLaunch, BrowserGet BASE_URL, Sleep 5, BrowserScroll, Sleep 2,
                   BrowserQuit, FileWrite (ascii ''knowledge.json''),
                   FileWrite (ascii ''chunks.json''),
                   Embed [services_text], FileWrite VECTORSTORE_PATH]\<rparr>"
  by (simp add: ingest_def scrape_occams_def make_chunks_def build_embeddings_def empty_world_def
      extract_entries_def selectors_def example_page_def services_text_def heading_text_def
      knowledge_entry_def dict_item_def ascii_def)

text \<open>
  Claim C5. When the knowledge, chunk and index artifacts all exist, each of the three
  stages, and the ingestion pipeline as a whole, returns the world it was given: no artifact
  changes and nothing is added to the log of browser, network, file-writing and embedding
  operations, whatever the browser and the embedding model would have done.
\<close>

theorem ingest_idempotent:
  assumes "knowledge_json w \<noteq> None" and "chunks_json w \<noteq> None" and "faiss_index w \<noteq> None"
  shows "scrape_occams page w = Inr w \<and> make_chunks w = Inr w
         \<and> build_embeddings from_documents w = Inr w
         \<and> ingest page from_documents w = Inr w"
  using assms by (simp add: scrape_occams_def make_chunks_def build_embeddings_def ingest_def)

theorem ingest_idempotent_witness:
  "scrape_occams (Inl ExternalError) built_world = Inr built_world
   \<and> make_chunks built_world = Inr built_world
   \<and> build_embeddings (\<lambda>texts. Inl ExternalError) built_world = Inr built_world
   \<and> ingest (Inl ExternalError) (\<lambda>texts. Inl ExternalError) built_world = Inr built_world"
proof -
  have "knowledge_json built_world \<noteq> None" "chunks_json built_world \<noteq> None"
    "faiss_index built_world \<noteq> None"
    by (simp_all add: built_world_def)
  then show ?thesis by (rule ingest_idempotent)
qed

section \<open>Content selector\<close>

text \<open>The loops compute the first occurrences of the long enough texts, in the order read.\<close>

lemma set_keep_first_occurrences: "set (keep_first_occurrences xs) = set xs"
  by (induction xs rule: keep_first_occurrences.induct) auto

lemma distinct_keep_first_occurrences: "distinct (keep_first_occurrences xs)"
  by (induction xs rule: keep_first_occurrences.induct)
     (simp_all add: set_keep_first_occurrences)

lemma scrape_tags_eq:
  "scrape_tags texts (data, seen) =
     (data @ map knowledge_entry
        (keep_first_occurrences (filter (\<lambda>t. long_enough t \<and> t \<notin> seen) texts)),
      seen \<union> set (filter long_enough texts))"
proof (induction texts arbitrary: data seen)
  case Nil
  then show ?case by simp
next
  case (Cons t rest)
  show ?case
  proof (cases "long_enough t \<and> t \<notin> seen")
    case True
    have "removeAll t (filter (\<lambda>u. long_enough u \<and> u \<notin> seen) rest) =
            filter (\<lambda>u. long_enough u \<and> u \<notin> insert t seen) rest"
      by (induction rest) auto
    with True Cons.IH [of "data @ [knowledge_entry t]" "insert t seen"]
    show ?thesis by (simp add: long_enough_def)
  next
    case False
    with Cons.IH [of data seen] show ?thesis
      by (auto simp add: long_enough_def)
  qed
qed

lemma scrape_tags_append:
  "scrape_tags (xs @ ys) acc = scrape_tags ys (scrape_tags xs acc)"
proof (induction xs arbitrary: acc)
  case Nil
  then show ?case by simp
next
  case (Cons x xs)
  then show ?case by (cases acc) simp
qed

lemma scrape_selectors_concat:
  "scrape_selectors soup sels acc = scrape_tags (concat (map soup sels)) acc"
  by (induction sels arbitrary: acc) (simp_all add: scrape_tags_append)

lemma extract_entries_eq:
  "extract_entries soup =
     map knowledge_entry
       (keep_first_occurrences (filter long_enough (concat (map soup selectors))))"
  by (simp add: extract_entries_def scrape_selectors_concat scrape_tags_eq)

lemma knowledge_entry_content: "knowledge_entry text (ascii ''content'') = Some text"
  by (simp add: knowledge_entry_def ascii_def)

lemma knowledge_entry_url: "knowledge_entry text (ascii ''url'') = Some BASE_URL"
  by (simp add: knowledge_entry_def ascii_def)

lemma dom_knowledge_entry: "dom (knowledge_entry text) = {ascii ''content'', ascii ''url''}"
  by (auto simp add: knowledge_entry_def)

lemma knowledge_entry_source: "knowledge_entry text (ascii ''source'') = None"
  by (simp add: knowledge_entry_def ascii_def)

lemma scrape_occams_run:
  assumes "knowledge_json w = None" and "scrape_occams page w = Inr w'"
  shows "\<exists>soup. page = Inr soup \<and> knowledge_json w' = Some (extract_entries soup)"
  using assms by (cases page) (auto simp add: scrape_occams_def)

lemma extract_entries_example:
  "extract_entries example_page = [knowledge_entry services_text]"
  by (simp add: extract_entries_eq example_page_def selectors_def long_enough_def
      services_text_def heading_text_def ascii_def)

lemma scrape_occams_example:
  "knowledge_json empty_world = None \<and>
   scrape_occams (Inr example_page) empty_world =
     Inr (scraped_world\<lparr>trace :=
            [BrowserLaunch, BrowserGet BASE_URL, Sleep 5, BrowserScroll, Sleep 2, BrowserQuit,
             FileWrite (ascii ''knowledge.json'')]\<rparr>)"
  by (simp add: scrape_occams_def empty_world_def scraped_world_def extract_entries_example)

text \<open>
  Claim C6. In the knowledge store written by one run of the scraper no two entries have the
  same content: the contents are the texts longer than 30 characters, read selector by
  selector and in document order within a selector, with only the first occurrence of each
  text kept.
\<close>

theorem scrape_occams_distinct:
  assumes "knowledge_json w = None" and "scrape_occams page w = Inr w'"
  shows "\<exists>soup entries. page = Inr soup \<and> knowledge_json w' = Some entries
           \<and> distinct (map (\<lambda>entry. entry (ascii ''content'')) entries)
           \<and> map (\<lambda>entry. entry (ascii ''content'')) entries =
               map Some (keep_first_occurrences
                           (filter long_enough (concat (map soup selectors))))"
proof -
  from scrape_occams_run [OF assms] obtain soup where p: "page = Inr soup"
    and k: "knowledge_json w' = Some (extract_entries soup)"
    by blast
  have m: "map (\<lambda>entry. entry (ascii ''content'')) (extract_entries soup) =
       map Some (keep_first_occurrences (filter long_enough (concat (map soup selectors))))"
    by (simp add: extract_entries_eq knowledge_entry_content comp_def)
  have "distinct (map Some
      (keep_first_occurrences (filter long_enough (concat (map soup selectors)))))"
    by (simp add: distinct_map distinct_keep_first_occurrences)
  with m have "distinct (map (\<lambda>entry. entry (ascii ''content'')) (extract_entries soup))"
    by simp
  with p k m show ?thesis by blast
qed

theorem scrape_occams_distinct_witness:
  "\<exists>soup entries. (Inr example_page :: error + document) = Inr soup
     \<and> knowledge_json (scraped_world\<lparr>trace :=
            [BrowserLaunch, BrowserGet BASE_URL, Sleep 5, BrowserScroll, Sleep 2, BrowserQuit,
             FileWrite (ascii ''knowledge.json'')]\<rparr>) = Some entries
     \<and> distinct (map (\<lambda>entry. entry (ascii ''content'')) entries)
     \<and> map (\<lambda>entry. entry (ascii ''content'')) entries =
         map Some (keep_first_occurrences
                     (filter long_enough (concat (map soup selectors))))"
  using scrape_occams_example
  by (intro scrape_occams_distinct [of empty_world "Inr example_page"]) simp_all

text \<open>
  Claim C7. Every entry of the knowledge store written by the scraper has a content of more
  than 30 characters; a text of 30 characters or fewer is the content of no entry.
\<close>

theorem scrape_occams_length:
  assumes "knowledge_json w = None" and "scrape_occams page w = Inr w'"
  shows "\<exists>entries. knowledge_json w' = Some entries
           \<and> (\<forall>entry \<in> set entries.
                 \<exists>t. entry (ascii ''content'') = Some t \<and> 30 < length t)
           \<and> (\<forall>t. length t \<le> 30 \<longrightarrow>
                 (\<forall>entry \<in> set entries. entry (ascii ''content'') \<noteq> Some t))"
proof -
  from scrape_occams_run [OF assms] obtain soup where
    k: "knowledge_json w' = Some (extract_entries soup)"
    by blast
  have long: "\<exists>t. entry (ascii ''content'') = Some t \<and> 30 < length t"
    if "entry \<in> set (extract_entries soup)" for entry
  proof -
    from that obtain t where "entry = knowledge_entry t" and "long_enough t"
      by (auto simp add: extract_entries_eq set_keep_first_occurrences)
    then show ?thesis
      by (auto simp add: knowledge_entry_content long_enough_def)
  qed
  then have "\<forall>t. length t \<le> 30 \<longrightarrow>
      (\<forall>entry \<in> set (extract_entries soup). entry (ascii ''content'') \<noteq> Some t)"
    by fastforce
  with k long show ?thesis by blast
qed

theorem scrape_occams_length_witness:
  "\<exists>entries. knowledge_json (scraped_world\<lparr>trace :=
            [BrowserLaunch, BrowserGet BASE_URL, Sleep 5, BrowserScroll, Sleep 2, BrowserQuit,
             FileWrite (ascii ''knowledge.json'')]\<rparr>) = Some entries
           \<and> (\<forall>entry \<in> set entries.
                 \<exists>t. entry (ascii ''content'') = Some t \<and> 30 < length t)
           \<and> (\<forall>t. length t \<le> 30 \<longrightarrow>
                 (\<forall>entry \<in> set entries. entry (ascii ''content'') \<noteq> Some t))"
  using scrape_occams_example
  by (intro scrape_occams_length [of empty_world "Inr example_page"]) simp_all

text \<open>
  Claim C9, as stated, fails: the entry written for a text has no field \<open>source\<close>; its
  second field is named \<open>url\<close>.
\<close>

theorem knowledge_entry_fields_counterexample:
  "scrape_occams (Inr example_page) empty_world =
     Inr (scraped_world\<lparr>trace :=
            [BrowserLaunch, BrowserGet BASE_URL, Sleep 5, BrowserScroll, Sleep 2, BrowserQuit,
             FileWrite (ascii ''knowledge.json'')]\<rparr>)
   \<and> knowledge_json (scraped_world\<lparr>trace :=
            [BrowserLaunch, BrowserGet BASE_URL, Sleep 5, BrowserScroll, Sleep 2, BrowserQuit,
             FileWrite (ascii ''knowledge.json'')]\<rparr>) = Some [knowledge_entry services_text]
   \<and> knowledge_entry services_text (ascii ''source'') = None
   \<and> dom (knowledge_entry services_text) \<noteq> {ascii ''content'', ascii ''source''}"
proof -
  have "ascii ''url'' \<notin> {ascii ''content'', ascii ''source''}"
    by (simp add: ascii_def)
  then have "dom (knowledge_entry services_text) \<noteq> {ascii ''content'', ascii ''source''}"
    unfolding dom_knowledge_entry by blast
  moreover have "knowledge_json (scraped_world\<lparr>trace :=
            [BrowserLaunch, BrowserGet BASE_URL, Sleep 5, BrowserScroll, Sleep 2, BrowserQuit,
             FileWrite (ascii ''knowledge.json'')]\<rparr>) = Some [knowledge_entry services_text]"
    by (simp add: scraped_world_def)
  ultimately show ?thesis
    using scrape_occams_example by (simp add: knowledge_entry_source)
qed

text \<open>
  Claim C9, amended. Every entry of the knowledge store written by the scraper has exactly
  the two fields \<open>content\<close> and \<open>url\<close>; \<open>content\<close> holds a string and \<open>url\<close> holds the
  seed URL the page was fetched from.
\<close>

theorem scrape_occams_fields:
  assumes "knowledge_json w = None" and "scrape_occams page w = Inr w'"
  shows "\<exists>entries. knowledge_json w' = Some entries
           \<and> (\<forall>entry \<in> set entries.
                 dom entry = {ascii ''content'', ascii ''url''}
                 \<and> entry (ascii ''url'') = Some BASE_URL
                 \<and> (\<exists>t. entry (ascii ''content'') = Some t))"
proof -
  from scrape_occams_run [OF assms] obtain soup where
    k: "knowledge_json w' = Some (extract_entries soup)"
    by blast
  have "\<forall>entry \<in> set (extract_entries soup).
          dom entry = {ascii ''content'', ascii ''url''}
          \<and> entry (ascii ''url'') = Some BASE_URL
          \<and> (\<exists>t. entry (ascii ''content'') = Some t)"
    by (auto simp add: extract_entries_eq dom_knowledge_entry knowledge_entry_url
        knowledge_entry_content)
  with k show ?thesis by blast
qed

theorem scrape_occams_fields_witness:
  "\<exists>entries. knowledge_json (scraped_world\<lparr>trace :=
            [BrowserLaunch, BrowserGet BASE_URL, Sleep 5, BrowserScroll, Sleep 2, BrowserQuit,
             FileWrite (ascii ''knowledge.json'')]\<rparr>) = Some entries
           \<and> (\<forall>entry \<in> set entries.
                 dom entry = {ascii ''content'', ascii ''url''}
                 \<and> entry (ascii ''url'') = Some BASE_URL
                 \<and> (\<exists>t. entry (ascii ''content'') = Some t))"
  using scrape_occams_example
  by (intro scrape_occams_fields [of empty_world "Inr example_page"]) simp_all

section \<open>Chunker\<close>

lemma chunk_texts_sound:
  "chunk_texts knowledge = Inr chunks
     \<Longrightarrow> list_all2 (\<lambda>entry chunk. entry (ascii ''content'') = Some chunk) knowledge chunks"
proof (induction knowledge arbitrary: chunks)
  case Nil
  then show ?case by simp
next
  case (Cons entry knowledge)
  from Cons.prems obtain c cs where c: "entry (ascii ''content'') = Some c"
    and cs: "chunk_texts knowledge = Inr cs" and eq: "chunks = c # cs"
    by (auto simp add: dict_item_def split: option.splits sum.splits)
  from Cons.IH [OF cs] c eq show ?case by simp
qed

lemma chunk_texts_total:
  "\<forall>entry \<in> set knowledge. entry (ascii ''content'') \<noteq> None
     \<Longrightarrow> \<exists>chunks. chunk_texts knowledge = Inr chunks"
  by (induction knowledge) (auto simp add: dict_item_def)

text \<open>
  Claim C8. When the chunker runs on a knowledge store whose entries all carry a
  \<open>content\<close>, it writes exactly one chunk per entry, equal to that entry's content and at
  the same position: the chunk list has the length of the entry list and agrees with it
  index by index.
\<close>

theorem make_chunks_one_to_one:
  assumes "chunks_json w = None"
    and "knowledge_json w = Some knowledge"
    and "\<forall>entry \<in> set knowledge. entry (ascii ''content'') \<noteq> None"
  shows "\<exists>chunks. make_chunks w =
             Inr (w\<lparr>chunks_json := Some chunks,
                    trace := trace w @ [FileWrite (ascii ''chunks.json'')]\<rparr>)
           \<and> length chunks = length knowledge
           \<and> (\<forall>i < length knowledge. (knowledge ! i) (ascii ''content'') = Some (chunks ! i))"
proof -
  from assms(3) obtain chunks where ch: "chunk_texts knowledge = Inr chunks"
    using chunk_texts_total by blast
  from chunk_texts_sound [OF ch]
  have "length chunks = length knowledge"
    and "\<forall>i < length knowledge. (knowledge ! i) (ascii ''content'') = Some (chunks ! i)"
    by (simp_all add: list_all2_conv_all_nth)
  moreover from assms(1,2) ch
  have "make_chunks w =
          Inr (w\<lparr>chunks_json := Some chunks,
                 trace := trace w @ [FileWrite (ascii ''chunks.json'')]\<rparr>)"
    by (simp add: make_chunks_def)
  ultimately show ?thesis by blast
qed

theorem make_chunks_one_to_one_witness:
  "make_chunks two_entry_world =
     Inr (two_entry_world\<lparr>chunks_json := Some [services_text, careers_text],
            trace := trace two_entry_world @ [FileWrite (ascii ''chunks.json'')]\<rparr>)"
proof -
  let ?knowledge = "[knowledge_entry services_text, knowledge_entry careers_text]"
  have a: "chunks_json two_entry_world = None"
    and b: "knowledge_json two_entry_world = Some ?knowledge"
    by (simp_all add: two_entry_world_def)
  have c: "\<forall>entry \<in> set ?knowledge. entry (ascii ''content'') \<noteq> None"
    by (simp add: knowledge_entry_content)
  from make_chunks_one_to_one [OF a b c] obtain chunks where
    m: "make_chunks two_entry_world =
          Inr (two_entry_world\<lparr>chunks_json := Some chunks,
                 trace := trace two_entry_world @ [FileWrite (ascii ''chunks.json'')]\<rparr>)"
    and l: "length chunks = length ?knowledge"
    and n: "\<forall>i < length ?knowledge. (?knowledge ! i) (ascii ''content'') = Some (chunks ! i)"
    by blast
  from n [rule_format, of 0]
  have "(?knowledge ! 0) (ascii ''content'') = Some (chunks ! 0)"
    by simp
  then have first: "chunks ! 0 = services_text"
    by (simp add: knowledge_entry_content)
  from n [rule_format, of "Suc 0"]
  have "(?knowledge ! Suc 0) (ascii ''content'') = Some (chunks ! Suc 0)"
    by simp
  then have second: "chunks ! Suc 0 = careers_text"
    by (simp add: knowledge_entry_content)
  from l obtain c1 c2 where "chunks = [c1, c2]"
    by (cases chunks; cases "tl chunks") auto
  with first second have "chunks = [services_text, careers_text]"
    by simp
  with m show ?thesis by simp
qed

section \<open>Chat history store\<close>

text \<open>
  Claim C10. \<open>save_chat\<close> stores the given history under the given email and leaves the
  entry of every other email as it was, so \<open>load_chat\<close> afterwards returns the new
  history for that email and the old one for any other; \<open>load_chat\<close> returns the empty
  list when the store is absent or has no entry for the email.
\<close>

theorem save_chat_frame:
  "(\<exists>all_history. chat_history_json (save_chat w e h) = Some all_history
       \<and> all_history e = Some h
       \<and> (\<forall>e'. e' \<noteq> e \<longrightarrow>
            all_history e' = (case chat_history_json w of Some old \<Rightarrow> old e' | None \<Rightarrow> None)))
   \<and> load_chat (save_chat w e h) e = h
   \<and> (\<forall>e'. e' \<noteq> e \<longrightarrow> load_chat (save_chat w e h) e' = load_chat w e')
   \<and> (chat_history_json w = None \<longrightarrow> load_chat w e = [])
   \<and> (\<forall>old. chat_history_json w = Some old \<and> old e = None \<longrightarrow> load_chat w e = [])"
  by (auto simp add: save_chat_def load_chat_def dict_get_def Let_def split: option.splits)

theorem save_chat_frame_witness:
  "load_chat (save_chat chat_world (ascii ''ana@x.com'') [example_turn, example_turn])
       (ascii ''ana@x.com'') = [example_turn, example_turn]
   \<and> load_chat (save_chat chat_world (ascii ''ana@x.com'') [example_turn, example_turn])
       (ascii ''bo@x.com'') = [example_turn]
   \<and> load_chat empty_world (ascii ''ana@x.com'') = []"
proof -
  note frame = save_chat_frame [of chat_world "ascii ''ana@x.com''" "[example_turn, example_turn]"]
  have ne: "ascii ''bo@x.com'' \<noteq> ascii ''ana@x.com''"
    by (simp add: ascii_def)
  have old: "load_chat chat_world (ascii ''bo@x.com'') = [example_turn]"
    by (simp add: load_chat_def chat_world_def dict_get_def)
  have absent: "chat_history_json empty_world = None"
    by (simp add: empty_world_def)
  from frame have 1: "load_chat (save_chat chat_world (ascii ''ana@x.com'')
      [example_turn, example_turn]) (ascii ''ana@x.com'') = [example_turn, example_turn]"
    by (elim conjE)
  from frame have "\<forall>e'. e' \<noteq> ascii ''ana@x.com'' \<longrightarrow>
      load_chat (save_chat chat_world (ascii ''ana@x.com'') [example_turn, example_turn]) e' =
      load_chat chat_world e'"
    by (elim conjE)
  with ne old have 2: "load_chat (save_chat chat_world (ascii ''ana@x.com'')
      [example_turn, example_turn]) (ascii ''bo@x.com'') = [example_turn]"
    by simp
  from save_chat_frame [of empty_world "ascii ''ana@x.com''" "[]"] absent
  have 3: "load_chat empty_world (ascii ''ana@x.com'') = []"
    by (elim conjE) simp
  from 1 2 3 show ?thesis by simp
qed

end
